theory Spec2Isabelle
  imports Main "HOL-Library.Sublist"
begin

section \<open>JavaScript values used by the assistant gateway of \<open>src/App.tsx\<close>\<close>

subsection \<open>Numbers\<close>

text \<open>
  \<open>messageCount\<close> is a JavaScript number. The values it takes in this program are
  \<open>NaN\<close> (what \<open>parseInt\<close> returns when it finds no digit) and integers. A double holds
  every integer of magnitude at most \<open>2^53\<close> exactly; the model keeps integers exact, and
  the theorems whose arithmetic depends on it state that range. \<open>-0\<close> behaves as \<open>0\<close> in
  every expression of the program (\<open>-0 + 1\<close>, \<open>-0 >= 3\<close>, \<open>3 - -0\<close>, \<open>(-0).toString()\<close>), so
  both are \<open>Num 0\<close>.
\<close>

datatype jsnum = NaN | Num int

fun js_ge :: "jsnum \<Rightarrow> jsnum \<Rightarrow> bool" where
  "js_ge (Num a) (Num b) = (b \<le> a)"
| "js_ge _ _ = False"

fun js_lt :: "jsnum \<Rightarrow> jsnum \<Rightarrow> bool" where
  "js_lt (Num a) (Num b) = (a < b)"
| "js_lt _ _ = False"

fun js_add :: "jsnum \<Rightarrow> jsnum \<Rightarrow> jsnum" where
  "js_add (Num a) (Num b) = Num (a + b)"
| "js_add _ _ = NaN"

fun js_sub :: "jsnum \<Rightarrow> jsnum \<Rightarrow> jsnum" where
  "js_sub (Num a) (Num b) = Num (a - b)"
| "js_sub _ _ = NaN"

definition safe_integer :: "int \<Rightarrow> bool" where
  "safe_integer n = (\<bar>n\<bar> \<le> 2 ^ 53)"

subsection \<open>Strings\<close>

text \<open>
  Strings are sequences of code units below 256. \<open>is_js_space\<close> holds of the white space
  and line terminators of that range, which \<open>trim\<close> and \<open>parseInt\<close> skip;
  \<open>toLowerCase\<close> maps the upper-case letters of that range.
\<close>

definition is_js_space :: "char \<Rightarrow> bool" where
  "is_js_space c = ((of_char c :: nat) \<in> {9, 10, 11, 12, 13, 32, 160})"

definition trim :: "string \<Rightarrow> string" where
  "trim s = rev (dropWhile is_js_space (rev (dropWhile is_js_space s)))"

definition lower_char :: "char \<Rightarrow> char" where
  "lower_char c =
     (let n = (of_char c :: nat)
      in if (65 \<le> n \<and> n \<le> 90) \<or> (192 \<le> n \<and> n \<le> 222 \<and> n \<noteq> 215)
         then char_of (n + 32) else c)"

definition toLowerCase :: "string \<Rightarrow> string" where
  "toLowerCase s = map lower_char s"

definition startsWith :: "string \<Rightarrow> string \<Rightarrow> bool" where
  "startsWith s p = (take (length p) s = p)"

fun js_includes :: "string \<Rightarrow> string \<Rightarrow> bool" where
  "js_includes [] p = (p = [])"
| "js_includes (c # cs) p = (startsWith (c # cs) p \<or> js_includes cs p)"

text \<open>
  \<open>url.replace(/\/+$/, "")\<close>: the first match of the pattern is replaced. The matcher
  tries the start positions from the left; at a position the pattern matches when the
  code unit there is a slash and only slashes follow up to the end of the input.
\<close>

fun replace_trailing_slashes :: "string \<Rightarrow> string" where
  "replace_trailing_slashes [] = []"
| "replace_trailing_slashes (c # cs) =
     (if c = CHR ''/'' \<and> list_all (\<lambda>d. d = CHR ''/'') cs then []
      else c # replace_trailing_slashes cs)"

text \<open>The arrow function \<open>normalize\<close> of \<open>isUrlAuthorized\<close>.\<close>

definition normalize_url :: "string \<Rightarrow> string" where
  "normalize_url url = toLowerCase (replace_trailing_slashes url)"

text \<open>\<open>Number.prototype.toString\<close> on \<open>NaN\<close> and on integers, in radix 10.\<close>

definition digit_char :: "nat \<Rightarrow> char" where
  "digit_char d = char_of (48 + d)"

fun digits :: "nat \<Rightarrow> string" where
  "digits n = (if n < 10 then [digit_char n] else digits (n div 10) @ [digit_char (n mod 10)])"

fun toString :: "jsnum \<Rightarrow> string" where
  "toString NaN = ''NaN''"
| "toString (Num n) = (if n < 0 then CHR ''-'' # digits (nat (- n)) else digits (nat n))"

text \<open>
  \<open>parseInt(s, 10)\<close>: leading white space is skipped, one sign is read, then the longest
  run of decimal digits; no digit gives \<open>NaN\<close>.
\<close>

definition is_digit :: "char \<Rightarrow> bool" where
  "is_digit c = (48 \<le> (of_char c :: nat) \<and> (of_char c :: nat) \<le> 57)"

definition digits_value :: "string \<Rightarrow> nat" where
  "digits_value z = foldl (\<lambda>a c. 10 * a + (of_char c - 48)) 0 z"

definition parseInt :: "string \<Rightarrow> jsnum" where
  "parseInt s =
     (let S = dropWhile is_js_space s;
          sign = (if S \<noteq> [] \<and> hd S = CHR ''-'' then - 1 else 1 :: int);
          S' = (if S \<noteq> [] \<and> (hd S = CHR ''+'' \<or> hd S = CHR ''-'') then tl S else S);
          Z = takeWhile is_digit S'
      in if Z = [] then NaN else Num (sign * int (digits_value Z)))"

section \<open>The page: location, authorization\<close>

record location =
  hostname :: string
  origin :: string
  href :: string

text \<open>\<open>const isSharedUrl = window.location.hostname.includes("-pre-")\<close>\<close>

definition isSharedUrl :: "location \<Rightarrow> bool" where
  "isSharedUrl loc = js_includes (hostname loc) ''-pre-''"

datatype mode = Owner | Restricted

definition mode_of :: "location \<Rightarrow> mode" where
  "mode_of loc = (if isSharedUrl loc then Restricted else Owner)"

definition isUrlAuthorized :: "location \<Rightarrow> string \<Rightarrow> bool" where
  "isUrlAuthorized loc authorizedUrl =
     (if \<not> isSharedUrl loc then True
      else if authorizedUrl = [] then False
      else (let currentOrigin = normalize_url (origin loc);
                targetUrl = normalize_url authorizedUrl
            in currentOrigin = targetUrl \<or> startsWith (toLowerCase (href loc)) targetUrl))"

text \<open>
  The normalisation in the words of the specification: all trailing \<open>/\<close> stripped, then
  lower-cased.
\<close>

definition strip_trailing_slashes_spec :: "string \<Rightarrow> string" where
  "strip_trailing_slashes_spec s = rev (dropWhile (\<lambda>c. c = CHR ''/'') (rev s))"

definition normalized_spec :: "string \<Rightarrow> string" where
  "normalized_spec s = toLowerCase (strip_trailing_slashes_spec s)"

section \<open>The chat session and the one-shot assistance\<close>

datatype role = User | Ai

datatype chat_message = ChatMessage (msg_role: role) (msg_text: string)

text \<open>
  What the environment answers to one call of \<open>genAI.models.generateContent\<close>:
  \<open>Resolved t\<close> is a response whose \<open>text\<close> is \<open>t\<close> (\<open>None\<close> when it is missing);
  \<open>Rejected m\<close> is a thrown error whose \<open>message\<close> is \<open>m\<close>. \<open>storage_write\<close> is what
  \<open>localStorage.setItem\<close> does when it is called: it stores, or it throws.
\<close>

datatype provider_result = Resolved "string option" | Rejected "string option"

datatype storage_write = WriteOk | WriteThrows "string option"

text \<open>
  A call of \<open>handleSendMessage\<close> suspended at its \<open>await\<close>: the constants of the render
  in which it was created. The page keeps the suspended calls in \<open>chatPending\<close> and counts
  those of \<open>generateAIAssistance\<close> in \<open>generatePending\<close>; \<open>requests\<close> lists the \<open>contents\<close>
  of every call to the provider that a handler starts.
\<close>

record chat_closure =
  userMessage :: string
  closure_messageCount :: jsnum

record world =
  authorizedUrl :: string
  title :: string
  content :: string
  isGenerating :: bool
  chatMessages :: "chat_message list"
  chatInput :: string
  isChatLoading :: bool
  messageCount :: jsnum
  window_location :: location
  localStorage :: "string \<rightharpoonup> string"
  console_error :: "string list"
  alerts :: "string list"
  requests :: "string list"
  chatPending :: "chat_closure list"
  generatePending :: nat

definition CHAT_LIMIT :: jsnum where
  "CHAT_LIMIT = Num 3"

definition quota_key :: string where
  "quota_key = ''katha_chat_limit''"

text \<open>
  \<open>useState(() => { const saved = localStorage.getItem("katha_chat_limit");
  return saved ? parseInt(saved, 10) : 0; })\<close>. The store is a map from keys to
  strings, and the read is taken to return; where the browser refuses the access, the
  page does not start.
\<close>

definition initial_messageCount :: "(string \<rightharpoonup> string) \<Rightarrow> jsnum" where
  "initial_messageCount store =
     (case store quota_key of
        None \<Rightarrow> Num 0
      | Some saved \<Rightarrow> if saved = [] then Num 0 else parseInt saved)"

definition initial_world :: "location \<Rightarrow> (string \<rightharpoonup> string) \<Rightarrow> world" where
  "initial_world l store =
     \<lparr> authorizedUrl = [], title = [], content = [], isGenerating = False,
       chatMessages = [], chatInput = [], isChatLoading = False,
       messageCount = initial_messageCount store,
       window_location = l, localStorage = store,
       console_error = [], alerts = [], requests = [],
       chatPending = [], generatePending = 0 \<rparr>"

definition shared :: "world \<Rightarrow> bool" where
  "shared w = isSharedUrl (window_location w)"

definition authorized :: "world \<Rightarrow> bool" where
  "authorized w = isUrlAuthorized (window_location w) (authorizedUrl w)"

definition not_authorized_text :: string where
  "not_authorized_text =
     ''This URL is not authorized for AI features. Please configure the Authorized URL in settings (Owner only).''"

definition limit_reached_text :: string where
  "limit_reached_text =
     ''Limit reached. You can only send 3 messages to the Katha Assistant in the shared version.''"

text \<open>\<open>err?.message || "Connection error"\<close>\<close>

definition error_message :: "string option \<Rightarrow> string" where
  "error_message m =
     (case m of None \<Rightarrow> ''Connection error''
      | Some s \<Rightarrow> if s = [] then ''Connection error'' else s)"

definition append_message :: "role \<Rightarrow> string \<Rightarrow> world \<Rightarrow> world" where
  "append_message r t w = w\<lparr>chatMessages := chatMessages w @ [ChatMessage r t]\<rparr>"

text \<open>
  \<open>handleSendMessage\<close> up to its \<open>await\<close>: the page it leaves and, when the provider was
  called, the suspended rest of the call.
\<close>

definition handleSendMessage_start :: "world \<Rightarrow> world \<times> chat_closure option" where
  "handleSendMessage_start w =
     (if trim (chatInput w) = [] then (w, None)
      else if \<not> authorized w then
        ((append_message Ai not_authorized_text w)\<lparr>chatInput := []\<rparr>, None)
      else if shared w \<and> js_ge (messageCount w) CHAT_LIMIT then
        ((append_message Ai limit_reached_text w)\<lparr>chatInput := []\<rparr>, None)
      else
        ((append_message User (chatInput w) w)
           \<lparr>chatInput := [], isChatLoading := True, requests := requests w @ [chatInput w]\<rparr>,
         Some \<lparr>userMessage = chatInput w, closure_messageCount = messageCount w\<rparr>))"

definition chat_catch :: "string option \<Rightarrow> world \<Rightarrow> world" where
  "chat_catch m w =
     append_message Ai
       (''Sorry, I'm having trouble connecting: '' @ error_message m @ ''. Please try again.'')
       (w\<lparr>console_error := console_error w @ [''Chat failed'']\<rparr>)"

text \<open>
  \<open>handleSendMessage\<close> from its \<open>await\<close> on: the \<open>try\<close> body, \<open>catch\<close> and \<open>finally\<close>.
  \<open>localStorage.setItem\<close> stands inside the \<open>try\<close>, after both state updates.
\<close>

definition handleSendMessage_settle ::
  "chat_closure \<Rightarrow> provider_result \<Rightarrow> storage_write \<Rightarrow> world \<Rightarrow> world" where
  "handleSendMessage_settle p r wr w =
     (let w' =
        (case r of
           Rejected m \<Rightarrow> chat_catch m w
         | Resolved None \<Rightarrow> w
         | Resolved (Some aiText) \<Rightarrow>
             if aiText = [] then w
             else
               (let w1 = append_message Ai aiText w in
                if shared w then
                  (let newCount = js_add (closure_messageCount p) (Num 1);
                       w2 = w1\<lparr>messageCount := newCount\<rparr>
                   in case wr of
                        WriteOk \<Rightarrow>
                          w2\<lparr>localStorage := (localStorage w2)(quota_key \<mapsto> toString newCount)\<rparr>
                      | WriteThrows m \<Rightarrow> chat_catch m w2)
                else w1))
      in w'\<lparr>isChatLoading := False\<rparr>)"

text \<open>A whole call of \<open>handleSendMessage\<close>, with nothing else in between.\<close>

definition handleSendMessage :: "provider_result \<Rightarrow> storage_write \<Rightarrow> world \<Rightarrow> world" where
  "handleSendMessage r wr w =
     (case handleSendMessage_start w of
        (w1, None) \<Rightarrow> w1
      | (w1, Some p) \<Rightarrow> handleSendMessage_settle p r wr w1)"

definition generate_prompt :: "string \<Rightarrow> string \<Rightarrow> string" where
  \<open>generate_prompt t c =
     ''I am writing a story titled "'' @ t @ ''". Here is what I have so far: "'' @ c @
     ''". Can you help me expand this story or give me some creative ideas to continue? Please provide the response in a short, inspiring way.''\<close>

text \<open>\<open>generateAIAssistance\<close> up to its \<open>await\<close>, and from there on.\<close>

definition generateAIAssistance_start :: "world \<Rightarrow> world \<times> bool" where
  "generateAIAssistance_start w =
     (if title w = [] \<and> content w = [] then (w, False)
      else if \<not> authorized w then (w\<lparr>alerts := alerts w @ [not_authorized_text]\<rparr>, False)
      else (w\<lparr>isGenerating := True,
              requests := requests w @ [generate_prompt (title w) (content w)]\<rparr>, True))"

definition generateAIAssistance_settle :: "provider_result \<Rightarrow> world \<Rightarrow> world" where
  "generateAIAssistance_settle r w =
     (let w' =
        (case r of
           Rejected m \<Rightarrow>
             w\<lparr>console_error := console_error w @ [''AI Generation failed''],
               alerts := alerts w @
                 [''Failed to generate AI suggestion: '' @ error_message m @ ''. Please try again.'']\<rparr>
         | Resolved None \<Rightarrow> w
         | Resolved (Some aiText) \<Rightarrow>
             if aiText = [] then w
             else w\<lparr>content := content w @
                    [CHR 0x0A, CHR 0x0A] @ ''---'' @ [CHR 0x0A] @ ''*AI Suggestion:*'' @ [CHR 0x0A] @ aiText\<rparr>)
      in w'\<lparr>isGenerating := False\<rparr>)"

definition generateAIAssistance :: "provider_result \<Rightarrow> world \<Rightarrow> world" where
  "generateAIAssistance r w =
     (case generateAIAssistance_start w of
        (w1, False) \<Rightarrow> w1
      | (w1, True) \<Rightarrow> generateAIAssistance_settle r w1)"

section \<open>The rendered controls and the events of the page\<close>

text \<open>
  The chat form's \<open>input\<close> is disabled by \<open>isSharedUrl && messageCount >= CHAT_LIMIT\<close>; its
  submit button by \<open>isChatLoading || !chatInput.trim() || (isSharedUrl && messageCount >=
  CHAT_LIMIT)\<close>; the assistance button by \<open>isGenerating || (!title && !content)\<close>. A form
  whose submit button is disabled is not submitted, and a disabled control takes no input.
\<close>

definition quota_exhausted :: "world \<Rightarrow> bool" where
  "quota_exhausted w = (shared w \<and> js_ge (messageCount w) CHAT_LIMIT)"

definition chat_input_disabled :: "world \<Rightarrow> bool" where
  "chat_input_disabled w = quota_exhausted w"

definition chat_submit_disabled :: "world \<Rightarrow> bool" where
  "chat_submit_disabled w =
     (isChatLoading w \<or> trim (chatInput w) = [] \<or> quota_exhausted w)"

definition generate_disabled :: "world \<Rightarrow> bool" where
  "generate_disabled w = (isGenerating w \<or> (title w = [] \<and> content w = []))"

text \<open>
  \<open>{isSharedUrl && messageCount < CHAT_LIMIT && (<p>Shared version: {CHAT_LIMIT -
  messageCount} messages remaining</p>)}\<close>: the number shown, when one is shown.
\<close>

definition remaining_shown :: "world \<Rightarrow> jsnum option" where
  "remaining_shown w =
     (if shared w \<and> js_lt (messageCount w) CHAT_LIMIT
      then Some (js_sub CHAT_LIMIT (messageCount w)) else None)"

datatype event =
    ChangeChatInput string
  | SubmitChat
  | ChatSettled provider_result storage_write
  | ChangeTitle string
  | ChangeContent string
  | ClickGenerate
  | GenerateSettled provider_result
  | StoryPosted
  | SettingsFetched "string option"
  | SettingsSaved string

fun step :: "world \<Rightarrow> event \<Rightarrow> world" where
  "step w (ChangeChatInput s) = (if chat_input_disabled w then w else w\<lparr>chatInput := s\<rparr>)"
| "step w SubmitChat =
     (if chat_submit_disabled w then w
      else case handleSendMessage_start w of
             (w1, None) \<Rightarrow> w1
           | (w1, Some p) \<Rightarrow> w1\<lparr>chatPending := chatPending w1 @ [p]\<rparr>)"
| "step w (ChatSettled r wr) =
     (case chatPending w of
        [] \<Rightarrow> w
      | p # ps \<Rightarrow> handleSendMessage_settle p r wr (w\<lparr>chatPending := ps\<rparr>))"
| "step w (ChangeTitle s) = w\<lparr>title := s\<rparr>"
| "step w (ChangeContent s) = w\<lparr>content := s\<rparr>"
| "step w ClickGenerate =
     (if generate_disabled w then w
      else case generateAIAssistance_start w of
             (w1, False) \<Rightarrow> w1
           | (w1, True) \<Rightarrow> w1\<lparr>generatePending := Suc (generatePending w1)\<rparr>)"
| "step w (GenerateSettled r) =
     (case generatePending w of
        0 \<Rightarrow> w
      | Suc n \<Rightarrow> generateAIAssistance_settle r (w\<lparr>generatePending := n\<rparr>))"
| "step w StoryPosted = w\<lparr>title := [], content := []\<rparr>"
| "step w (SettingsFetched u) =
     (case u of None \<Rightarrow> w
      | Some a \<Rightarrow> if a = [] then w else w\<lparr>authorizedUrl := a\<rparr>)"
| "step w (SettingsSaved u) = w\<lparr>authorizedUrl := u\<rparr>"

definition run :: "world \<Rightarrow> event list \<Rightarrow> world" where
  "run w es = foldl step w es"

text \<open>
  The suspended chat calls agree with the page: there is one exactly while
  \<open>isChatLoading\<close> holds, and it was created in a render with the present count.
\<close>

definition consistent :: "world \<Rightarrow> bool" where
  "consistent w =
     (length (chatPending w) \<le> 1 \<and>
      (isChatLoading w = (chatPending w \<noteq> [])) \<and>
      list_all (\<lambda>p. closure_messageCount p = messageCount w) (chatPending w))"

text \<open>
  One turn of the conversation as the events of the page: the text is typed, the form is
  submitted, the provider's call settles. \<open>answered_turns\<close> is a sequence of turns whose
  calls all resolve with a text; \<open>answered\<close> says that the typed text is not blank and the
  answer is not empty.
\<close>

definition chat_turn :: "string \<Rightarrow> provider_result \<Rightarrow> storage_write \<Rightarrow> event list" where
  "chat_turn t r wr = [ChangeChatInput t, SubmitChat, ChatSettled r wr]"






text \<open>
  \<open>stored_behind w s\<close>: what a reload of the page would read from the store is an
  integer, at least \<open>s\<close> and at most the count the page has in memory.
\<close>

definition stored_behind :: "world \<Rightarrow> int \<Rightarrow> bool" where
  "stored_behind w s =
     (case (initial_messageCount (localStorage w), messageCount w) of
        (Num s', Num m) \<Rightarrow> s \<le> s' \<and> s' \<le> m
      | _ \<Rightarrow> False)"

section \<open>Pages used as examples\<close>

definition preview_location :: location where
  "preview_location =
     \<lparr>hostname = ''katha-pre-42.example.com'',
      origin = ''https://katha-pre-42.example.com'',
      href = ''https://katha-pre-42.example.com/''\<rparr>"

definition owner_location :: location where
  "owner_location =
     \<lparr>hostname = ''localhost'', origin = ''http://localhost:3000'',
      href = ''http://localhost:3000/''\<rparr>"

definition preview_url :: string where
  "preview_url = ''https://Katha-PRE-42.example.com//''"

text \<open>
  An idle page at a location, with the authorized URL \<open>a\<close> in effect, the count \<open>c\<close> in
  memory and \<open>input\<close> typed into the chat form.
\<close>

definition session :: "location \<Rightarrow> string \<Rightarrow> jsnum \<Rightarrow> string \<Rightarrow> world" where
  "session l a c input =
     (initial_world l Map.empty)\<lparr>authorizedUrl := a, messageCount := c, chatInput := input\<rparr>"

section \<open>Properties\<close>

subsection \<open>Normalisation and prefixes\<close>

lemma replace_trailing_slashes_all:
  "list_all (\<lambda>d. d = CHR ''/'') s \<Longrightarrow> replace_trailing_slashes s = []"
  by (cases s) auto

lemma replace_trailing_slashes_append:
  "c \<noteq> CHR ''/'' \<Longrightarrow> replace_trailing_slashes (s @ c # t) = s @ c # replace_trailing_slashes t"
  by (induction s) (auto simp: list_all_iff)

lemma replace_trailing_slashes_spec:
  "replace_trailing_slashes s = strip_trailing_slashes_spec s"
proof (induction s rule: rev_induct)
  case Nil
  show ?case by (simp add: strip_trailing_slashes_spec_def)
next
  case (snoc c s)
  show ?case
  proof (cases "c = CHR ''/''")
    case False
    then show ?thesis
      using replace_trailing_slashes_append [of c s "[]"]
      by (simp add: strip_trailing_slashes_spec_def)
  next
    case True
    have step: "replace_trailing_slashes (t @ [CHR ''/'']) = replace_trailing_slashes t" for t
      by (induction t) (auto simp: list_all_iff)
    show ?thesis
      using True snoc.IH by (simp add: step strip_trailing_slashes_spec_def)
  qed
qed

lemma normalize_spec: "normalize_url s = normalized_spec s"
  by (simp add: normalize_url_def normalized_spec_def replace_trailing_slashes_spec)

lemma startsWith_prefix: "startsWith s p = prefix p s"
  by (auto simp: startsWith_def prefix_def take_is_prefix)
    (metis append_eq_conv_conj)

subsection \<open>The gate constants\<close>

lemma js_ge_limit: "js_ge c CHAT_LIMIT = (\<exists>n. c = Num n \<and> 3 \<le> n)"
  by (cases c) (auto simp: CHAT_LIMIT_def)

lemma js_lt_limit: "js_lt c CHAT_LIMIT = (\<exists>n. c = Num n \<and> n < 3)"
  by (cases c) (auto simp: CHAT_LIMIT_def)

lemma shared_simps [simp]:
  "shared (w\<lparr>chatMessages := a\<rparr>) = shared w"
  "shared (w\<lparr>chatInput := b\<rparr>) = shared w"
  "shared (w\<lparr>isChatLoading := c\<rparr>) = shared w"
  "shared (w\<lparr>messageCount := d\<rparr>) = shared w"
  "shared (w\<lparr>localStorage := e\<rparr>) = shared w"
  "shared (w\<lparr>console_error := f\<rparr>) = shared w"
  "shared (w\<lparr>requests := g\<rparr>) = shared w"
  "shared (w\<lparr>chatPending := h\<rparr>) = shared w"
  "shared (w\<lparr>generatePending := i\<rparr>) = shared w"
  "shared (w\<lparr>title := j\<rparr>) = shared w"
  "shared (w\<lparr>content := k\<rparr>) = shared w"
  "shared (w\<lparr>isGenerating := l\<rparr>) = shared w"
  "shared (w\<lparr>alerts := m\<rparr>) = shared w"
  "shared (w\<lparr>authorizedUrl := n\<rparr>) = shared w"
  by (simp_all add: shared_def)

lemma settle_rejected:
  "handleSendMessage_settle p (Rejected m) wr w =
     w\<lparr>console_error := console_error w @ [''Chat failed''],
       chatMessages := chatMessages w @
         [ChatMessage Ai (''Sorry, I'm having trouble connecting: '' @ error_message m @ ''. Please try again.'')],
       isChatLoading := False\<rparr>"
  by (simp add: handleSendMessage_settle_def chat_catch_def append_message_def)

lemma settle_empty:
  "t = None \<or> t = Some [] \<Longrightarrow>
   handleSendMessage_settle p (Resolved t) wr w = w\<lparr>isChatLoading := False\<rparr>"
  by (auto simp: handleSendMessage_settle_def)

lemma settle_owner:
  "\<not> shared w \<Longrightarrow> t \<noteq> [] \<Longrightarrow>
   handleSendMessage_settle p (Resolved (Some t)) wr w =
     w\<lparr>chatMessages := chatMessages w @ [ChatMessage Ai t], isChatLoading := False\<rparr>"
  by (simp add: handleSendMessage_settle_def append_message_def)



lemma start_blank:
  "trim (chatInput w) = [] \<Longrightarrow> handleSendMessage_start w = (w, None)"
  by (simp add: handleSendMessage_start_def)

lemma start_unauthorized:
  "trim (chatInput w) \<noteq> [] \<Longrightarrow> \<not> authorized w \<Longrightarrow>
   handleSendMessage_start w =
     (w\<lparr>chatMessages := chatMessages w @ [ChatMessage Ai not_authorized_text], chatInput := []\<rparr>, None)"
  by (simp add: handleSendMessage_start_def append_message_def)

lemma start_exhausted:
  "trim (chatInput w) \<noteq> [] \<Longrightarrow> authorized w \<Longrightarrow> quota_exhausted w \<Longrightarrow>
   handleSendMessage_start w =
     (w\<lparr>chatMessages := chatMessages w @ [ChatMessage Ai limit_reached_text], chatInput := []\<rparr>, None)"
  by (simp add: handleSendMessage_start_def append_message_def quota_exhausted_def)

lemma start_dispatch:
  "trim (chatInput w) \<noteq> [] \<Longrightarrow> authorized w \<Longrightarrow> \<not> quota_exhausted w \<Longrightarrow>
   handleSendMessage_start w =
     (w\<lparr>chatMessages := chatMessages w @ [ChatMessage User (chatInput w)],
        chatInput := [], isChatLoading := True, requests := requests w @ [chatInput w]\<rparr>,
      Some \<lparr>userMessage = chatInput w, closure_messageCount = messageCount w\<rparr>)"
  by (simp add: handleSendMessage_start_def append_message_def quota_exhausted_def)

subsection \<open>What each phase of a handler leaves unchanged\<close>

lemma generate_start_frame:
  "messageCount (fst (generateAIAssistance_start w)) = messageCount w"
  "localStorage (fst (generateAIAssistance_start w)) = localStorage w"
  "chatPending (fst (generateAIAssistance_start w)) = chatPending w"
  "isChatLoading (fst (generateAIAssistance_start w)) = isChatLoading w"
  "chatMessages (fst (generateAIAssistance_start w)) = chatMessages w"
  "window_location (fst (generateAIAssistance_start w)) = window_location w"
  by (simp_all add: generateAIAssistance_start_def)

lemma generate_settle_frame:
  "messageCount (generateAIAssistance_settle r w) = messageCount w"
  "localStorage (generateAIAssistance_settle r w) = localStorage w"
  "chatPending (generateAIAssistance_settle r w) = chatPending w"
  "isChatLoading (generateAIAssistance_settle r w) = isChatLoading w"
  "chatMessages (generateAIAssistance_settle r w) = chatMessages w"
  "window_location (generateAIAssistance_settle r w) = window_location w"
  by (simp_all add: generateAIAssistance_settle_def Let_def split: provider_result.split option.split)

lemma settle_frame:
  "chatPending (handleSendMessage_settle p r wr w) = chatPending w"
  "isChatLoading (handleSendMessage_settle p r wr w) = False"
  "window_location (handleSendMessage_settle p r wr w) = window_location w"
  "requests (handleSendMessage_settle p r wr w) = requests w"
  by (simp_all add: handleSendMessage_settle_def Let_def chat_catch_def append_message_def
      split: provider_result.split option.split storage_write.split)

lemma settle_count:
  "messageCount (handleSendMessage_settle p r wr w) =
     (if shared w \<and> (\<exists>t. r = Resolved (Some t) \<and> t \<noteq> [])
      then js_add (closure_messageCount p) (Num 1) else messageCount w)"
  by (simp add: handleSendMessage_settle_def Let_def chat_catch_def append_message_def
      split: provider_result.split option.split storage_write.split)

lemma start_frame:
  "messageCount (fst (handleSendMessage_start w)) = messageCount w"
  "localStorage (fst (handleSendMessage_start w)) = localStorage w"
  "chatPending (fst (handleSendMessage_start w)) = chatPending w"
  "window_location (fst (handleSendMessage_start w)) = window_location w"
  by (simp_all add: handleSendMessage_start_def append_message_def)

lemma start_closure:
  "snd (handleSendMessage_start w) = Some p \<Longrightarrow>
     closure_messageCount p = messageCount w \<and> userMessage p = chatInput w \<and>
     isChatLoading (fst (handleSendMessage_start w))"
  by (auto simp: handleSendMessage_start_def append_message_def split: if_splits)

lemma start_no_closure:
  "snd (handleSendMessage_start w) = None \<Longrightarrow>
     isChatLoading (fst (handleSendMessage_start w)) = isChatLoading w"
  by (auto simp: handleSendMessage_start_def append_message_def split: if_splits)

lemma step_location: "window_location (step w e) = window_location w"
proof (cases e)
  case SubmitChat
  then show ?thesis using start_frame(4) [of w]
    by (cases "handleSendMessage_start w") (auto split: option.split)
next
  case ClickGenerate
  then show ?thesis using generate_start_frame(6) [of w]
    by (cases "generateAIAssistance_start w") (auto split: bool.split)
qed (auto simp: settle_frame generate_settle_frame split: list.split nat.split option.split)

lemma consistent_submit:
  assumes "consistent w"
  shows "consistent (step w SubmitChat)"
proof (cases "chat_submit_disabled w")
  case True
  then show ?thesis using assms by simp
next
  case False
  then have idle: "\<not> isChatLoading w" by (simp add: chat_submit_disabled_def)
  with assms have none: "chatPending w = []" by (simp add: consistent_def)
  obtain w1 po where st: "handleSendMessage_start w = (w1, po)" by (cases "handleSendMessage_start w")
  have fr: "chatPending w1 = []" "messageCount w1 = messageCount w"
    using start_frame [of w] none st by simp_all
  show ?thesis
  proof (cases po)
    case None
    then have "isChatLoading w1 = isChatLoading w" using start_no_closure [of w] st by simp
    then show ?thesis using False st None fr idle by (simp add: consistent_def)
  next
    case (Some p)
    then have "closure_messageCount p = messageCount w" "isChatLoading w1"
      using start_closure [of w p] st by simp_all
    then show ?thesis using False st Some fr by (simp add: consistent_def)
  qed
qed

lemma consistent_settled:
  assumes "consistent w"
  shows "consistent (step w (ChatSettled r wr))"
proof (cases "chatPending w")
  case Nil
  then show ?thesis using assms by simp
next
  case (Cons p ps)
  with assms have "ps = []" by (simp add: consistent_def)
  then show ?thesis using Cons by (simp add: consistent_def settle_frame)
qed

lemma consistent_step: "consistent w \<Longrightarrow> consistent (step w e)"
proof (cases e)
  case SubmitChat
  assume "consistent w" then show ?thesis using SubmitChat consistent_submit by simp
next
  case (ChatSettled r wr)
  assume "consistent w" then show ?thesis using ChatSettled consistent_settled by simp
next
  case ClickGenerate
  assume c: "consistent w"
  obtain w1 b where st: "generateAIAssistance_start w = (w1, b)"
    by (cases "generateAIAssistance_start w")
  then show ?thesis using c ClickGenerate generate_start_frame [of w]
    by (cases b) (simp_all add: consistent_def)
next
  case (GenerateSettled r)
  assume "consistent w" then show ?thesis using GenerateSettled
    by (simp add: consistent_def generate_settle_frame split: nat.split)
qed (auto simp: consistent_def split: option.split)

lemma consistent_run: "consistent w \<Longrightarrow> consistent (run w es)"
  unfolding run_def by (induction es arbitrary: w) (simp_all add: consistent_step)

lemma consistent_initial: "consistent (initial_world l store)"
  by (simp add: consistent_def initial_world_def)

subsection \<open>Writing the count and reading it back\<close>

declare digits.simps [simp del]

lemma digit_char_code: "d < 10 \<Longrightarrow> (of_char (digit_char d) :: nat) = 48 + d"
  by (simp add: digit_char_def)

lemma digit_char_is_digit: "d < 10 \<Longrightarrow> is_digit (digit_char d)"
  by (simp add: is_digit_def digit_char_code)

lemma digit_char_not_space: "d < 10 \<Longrightarrow> \<not> is_js_space (digit_char d)"
  by (auto simp: is_js_space_def digit_char_code)

lemma digit_char_not_sign: "d < 10 \<Longrightarrow> digit_char d \<noteq> CHR ''+'' \<and> digit_char d \<noteq> CHR ''-''"
proof
  assume d: "d < 10"
  have "(of_char (digit_char d) :: nat) \<noteq> of_char CHR ''+''" using d by (simp add: digit_char_code)
  then show "digit_char d \<noteq> CHR ''+''" by auto
  have "(of_char (digit_char d) :: nat) \<noteq> of_char CHR ''-''" using d by (simp add: digit_char_code)
  then show "digit_char d \<noteq> CHR ''-''" by auto
qed

lemma digits_all: "list_all is_digit (digits n)"
  by (induction n rule: digits.induct) (subst digits.simps, simp add: digit_char_is_digit)

lemma digits_nonempty: "digits n \<noteq> []"
  by (subst digits.simps) simp

lemma digits_hd: "\<exists>d<10. hd (digits n) = digit_char d"
proof (induction n rule: digits.induct)
  case (1 n)
  show ?case
  proof (cases "n < 10")
    case True
    then show ?thesis by (subst digits.simps) auto
  next
    case False
    then have "hd (digits n) = hd (digits (n div 10))"
      by (subst digits.simps) (simp add: digits_nonempty)
    then show ?thesis using 1 False by simp
  qed
qed

lemma digits_value_snoc: "digits_value (z @ [c]) = 10 * digits_value z + (of_char c - 48)"
  by (simp add: digits_value_def)

lemma digits_value_digits: "digits_value (digits n) = n"
proof (induction n rule: digits.induct)
  case (1 n)
  show ?case
  proof (cases "n < 10")
    case True
    then show ?thesis by (subst digits.simps) (simp add: digits_value_def digit_char_code)
  next
    case False
    then have "digits_value (digits n) = 10 * digits_value (digits (n div 10)) + n mod 10"
      by (subst digits.simps) (simp add: digits_value_snoc digit_char_code)
    then show ?thesis using 1 False by simp
  qed
qed

lemma parseInt_digits: "parseInt (digits n) = Num (int n)"
proof -
  obtain d where d: "d < 10" "hd (digits n) = digit_char d" using digits_hd by blast
  have ne: "digits n \<noteq> []" by (rule digits_nonempty)
  have sp: "dropWhile is_js_space (digits n) = digits n"
    using d ne digit_char_not_space [of d] by (cases "digits n") auto
  have sg: "hd (digits n) \<noteq> CHR ''+''" "hd (digits n) \<noteq> CHR ''-''"
    using d digit_char_not_sign [of d] by auto
  have tk: "takeWhile is_digit (digits n) = digits n"
    using digits_all [of n] by (simp add: list_all_iff)
  show ?thesis
    by (simp add: parseInt_def Let_def sp sg ne tk digits_value_digits)
qed

lemma parseInt_minus_digits: "parseInt (CHR ''-'' # digits n) = Num (- int n)"
proof -
  have sp: "\<not> is_js_space CHR ''-''" by (simp add: is_js_space_def)
  have tk: "takeWhile is_digit (digits n) = digits n"
    using digits_all [of n] by (simp add: list_all_iff)
  have dw: "dropWhile is_js_space (CHR ''-'' # digits n) = CHR ''-'' # digits n"
    using sp by simp
  show ?thesis
    by (simp add: parseInt_def Let_def sp tk digits_nonempty digits_value_digits)
qed

lemma parseInt_toString: "parseInt (toString (Num n)) = Num n"
proof (cases "n < 0")
  case True
  then show ?thesis by (simp add: parseInt_minus_digits)
next
  case False
  then show ?thesis by (simp add: parseInt_digits)
qed

lemma toString_nonempty: "toString c \<noteq> []"
  by (cases c) (simp_all add: digits_nonempty)

lemma reload_after_write:
  "initial_messageCount (store(quota_key \<mapsto> toString (Num n))) = Num n"
  by (simp add: initial_messageCount_def parseInt_toString toString_nonempty del: toString.simps)

subsection \<open>The count along the events of the page\<close>



lemma step_shared: "shared (step w e) = shared w"
  by (simp add: shared_def step_location)


lemma step_count:
  assumes "consistent w"
  shows "messageCount (step w e) =
     (if shared w \<and> isChatLoading w \<and> (\<exists>t wr. e = ChatSettled (Resolved (Some t)) wr \<and> t \<noteq> [])
      then js_add (messageCount w) (Num 1) else messageCount w)"
proof (cases e)
  case (ChatSettled r wr)
  show ?thesis
  proof (cases "chatPending w")
    case Nil
    then have "\<not> isChatLoading w" using assms by (simp add: consistent_def)
    then show ?thesis using Nil ChatSettled by simp
  next
    case (Cons p ps)
    then have "closure_messageCount p = messageCount w" "isChatLoading w"
      using assms by (simp_all add: consistent_def)
    then show ?thesis using Cons ChatSettled by (auto simp: settle_count)
  qed
next
  case SubmitChat
  then show ?thesis using start_frame(1) [of w]
    by (cases "handleSendMessage_start w") (auto split: option.split)
next
  case ClickGenerate
  then show ?thesis using generate_start_frame(1) [of w]
    by (cases "generateAIAssistance_start w") (auto split: bool.split)
next
  case (GenerateSettled r)
  then show ?thesis by (simp add: generate_settle_frame split: nat.split)
qed (auto split: option.split)

lemma step_count_mono:
  assumes "consistent w" "messageCount w = Num n"
  shows "\<exists>m. messageCount (step w e) = Num m \<and> n \<le> m"
  using assms by (simp add: step_count)

lemma run_count_mono:
  "consistent w \<Longrightarrow> messageCount w = Num n \<Longrightarrow> \<exists>m. messageCount (run w es) = Num m \<and> n \<le> m"
proof (induction es arbitrary: w n)
  case Nil
  then show ?case by (simp add: run_def)
next
  case (Cons e es)
  obtain k where k: "messageCount (step w e) = Num k" "n \<le> k"
    using step_count_mono [OF Cons.prems] by blast
  have "consistent (step w e)" using Cons.prems(1) by (rule consistent_step)
  from Cons.IH [OF this k(1)] obtain m where "messageCount (run (step w e) es) = Num m" "k \<le> m"
    by blast
  then show ?case using k(2) by (auto simp: run_def)
qed

lemma run_count_NaN:
  "consistent w \<Longrightarrow> messageCount w = NaN \<Longrightarrow> messageCount (run w es) = NaN"
proof (induction es arbitrary: w)
  case Nil
  then show ?case by (simp add: run_def)
next
  case (Cons e es)
  have "messageCount (step w e) = NaN" using Cons.prems by (simp add: step_count)
  moreover have "consistent (step w e)" using Cons.prems(1) by (rule consistent_step)
  ultimately show ?case using Cons.IH by (simp add: run_def)
qed


lemma step_owner_frame:
  assumes "\<not> shared w"
  shows "messageCount (step w e) = messageCount w \<and> localStorage (step w e) = localStorage w"
proof (cases e)
  case (ChatSettled r wr)
  then show ?thesis using assms
    by (auto simp: handleSendMessage_settle_def Let_def chat_catch_def append_message_def
        split: list.split provider_result.split option.split)
next
  case SubmitChat
  then show ?thesis using start_frame(1,2) [of w]
    by (cases "handleSendMessage_start w") (auto split: option.split)
next
  case ClickGenerate
  then show ?thesis using generate_start_frame(1,2) [of w]
    by (cases "generateAIAssistance_start w") (auto split: bool.split)
next
  case (GenerateSettled r)
  then show ?thesis by (simp add: generate_settle_frame split: nat.split)
qed (auto split: option.split)

lemma run_owner_frame:
  "\<not> shared w \<Longrightarrow> messageCount (run w es) = messageCount w \<and> localStorage (run w es) = localStorage w"
proof (induction es arbitrary: w)
  case Nil
  then show ?case by (simp add: run_def)
next
  case (Cons e es)
  have "\<not> shared (step w e)" using Cons.prems by (simp add: step_shared)
  from Cons.IH [OF this] show ?case using step_owner_frame [OF Cons.prems, of e] by (simp add: run_def)
qed

subsection \<open>Answered turns on the shared deployment\<close>

lemma authorized_simps [simp]:
  "authorized (w\<lparr>chatMessages := a\<rparr>) = authorized w"
  "authorized (w\<lparr>chatInput := b\<rparr>) = authorized w"
  "authorized (w\<lparr>isChatLoading := c\<rparr>) = authorized w"
  "authorized (w\<lparr>messageCount := d\<rparr>) = authorized w"
  "authorized (w\<lparr>localStorage := e\<rparr>) = authorized w"
  "authorized (w\<lparr>console_error := f\<rparr>) = authorized w"
  "authorized (w\<lparr>requests := g\<rparr>) = authorized w"
  "authorized (w\<lparr>chatPending := h\<rparr>) = authorized w"
  by (simp_all add: authorized_def)






subsection \<open>Helper facts about a whole chat turn\<close>

lemma error_message_embedded:
  "sublist d (''Sorry, I'm having trouble connecting: '' @ error_message (Some d) @ ''. Please try again.'')"
proof (cases "d = []")
  case True
  then show ?thesis by simp
next
  case False
  then have "error_message (Some d) = d" by (simp add: error_message_def)
  then show ?thesis by (metis sublist_appendI)
qed

lemma handleSendMessage_dispatch:
  assumes "trim (chatInput w) \<noteq> []" "authorized w" "\<not> quota_exhausted w"
  shows "handleSendMessage r wr w =
     handleSendMessage_settle \<lparr>userMessage = chatInput w, closure_messageCount = messageCount w\<rparr> r wr
       (w\<lparr>chatMessages := chatMessages w @ [ChatMessage User (chatInput w)],
          chatInput := [], isChatLoading := True, requests := requests w @ [chatInput w]\<rparr>)"
  using assms by (simp add: handleSendMessage_def start_dispatch)

lemma handleSendMessage_unauthorized:
  assumes "trim (chatInput w) \<noteq> []" "\<not> authorized w"
  shows "handleSendMessage r wr w =
     w\<lparr>chatMessages := chatMessages w @ [ChatMessage Ai not_authorized_text], chatInput := []\<rparr>"
  using assms by (simp add: handleSendMessage_def start_unauthorized)

lemma handleSendMessage_exhausted:
  assumes "trim (chatInput w) \<noteq> []" "authorized w" "quota_exhausted w"
  shows "handleSendMessage r wr w =
     w\<lparr>chatMessages := chatMessages w @ [ChatMessage Ai limit_reached_text], chatInput := []\<rparr>"
  using assms by (simp add: handleSendMessage_def start_exhausted)

lemma settle_messages_prefix:
  "prefix (chatMessages w) (chatMessages (handleSendMessage_settle p r wr w))"
  by (simp add: handleSendMessage_settle_def Let_def chat_catch_def append_message_def
      split: provider_result.split option.split storage_write.split)




lemma step_count_unchanged:
  assumes "consistent w" "\<not> (\<exists>t wr. e = ChatSettled (Resolved (Some t)) wr \<and> t \<noteq> [])"
  shows "messageCount (step w e) = messageCount w"
  using assms by (auto simp: step_count)

lemma step_count_incremented:
  assumes "consistent w" "shared w" "isChatLoading w" "t \<noteq> []" "messageCount w = Num n"
  shows "messageCount (step w (ChatSettled (Resolved (Some t)) wr)) = Num (n + 1)"
proof -
  have "messageCount (step w (ChatSettled (Resolved (Some t)) wr)) = js_add (messageCount w) (Num 1)"
    using assms(2,3,4) by (subst step_count [OF assms(1)]) auto
  then show ?thesis using assms(5) by simp
qed

lemma owner_submit:
  assumes "\<not> shared w" "\<not> isChatLoading w" "trim (chatInput w) \<noteq> []"
  shows "requests (step w SubmitChat) = requests w @ [chatInput w]"
proof -
  have a: "authorized w" using assms(1) by (simp add: authorized_def shared_def isUrlAuthorized_def)
  have q: "\<not> quota_exhausted w" using assms(1) by (simp add: quota_exhausted_def)
  then have "\<not> chat_submit_disabled w" using assms by (simp add: chat_submit_disabled_def)
  then show ?thesis using assms(3) a q by (simp add: start_dispatch)
qed

subsection \<open>The stored count along the events of the page\<close>

lemma step_storage:
  assumes "consistent w"
  shows "localStorage (step w e) =
     (if shared w \<and> isChatLoading w \<and> (\<exists>t. e = ChatSettled (Resolved (Some t)) WriteOk \<and> t \<noteq> [])
      then (localStorage w)(quota_key \<mapsto> toString (js_add (messageCount w) (Num 1)))
      else localStorage w)"
proof (cases e)
  case (ChatSettled r wr)
  show ?thesis
  proof (cases "chatPending w")
    case Nil
    then have "\<not> isChatLoading w" using assms by (simp add: consistent_def)
    then show ?thesis using Nil ChatSettled by simp
  next
    case (Cons p ps)
    then have "closure_messageCount p = messageCount w" "isChatLoading w"
      using assms by (simp_all add: consistent_def)
    then show ?thesis using Cons ChatSettled
      by (auto simp: handleSendMessage_settle_def Let_def chat_catch_def append_message_def
          split: provider_result.split option.split storage_write.split)
  qed
next
  case SubmitChat
  then show ?thesis using start_frame(2) [of w]
    by (cases "handleSendMessage_start w") (auto split: option.split)
next
  case ClickGenerate
  then show ?thesis using generate_start_frame(2) [of w]
    by (cases "generateAIAssistance_start w") (auto split: bool.split)
next
  case (GenerateSettled r)
  then show ?thesis by (simp add: generate_settle_frame split: nat.split)
qed (auto split: option.split)

lemma step_stored_behind:
  assumes "consistent w" "stored_behind w s"
  shows "stored_behind (step w e) s"
proof -
  obtain s' m where b: "s \<le> s'" "s' \<le> m" "initial_messageCount (localStorage w) = Num s'"
    "messageCount w = Num m"
    using assms(2) by (auto simp: stored_behind_def split: jsnum.splits)
  show ?thesis
  proof (cases "shared w \<and> isChatLoading w \<and> (\<exists>t wr. e = ChatSettled (Resolved (Some t)) wr \<and> t \<noteq> [])")
    case False
    then have "messageCount (step w e) = messageCount w" "localStorage (step w e) = localStorage w"
      using step_count [OF assms(1), of e] step_storage [OF assms(1), of e]
      by (auto simp del: step.simps)
    then show ?thesis using b by (auto simp: stored_behind_def)
  next
    case True
    then obtain t wr where e: "e = ChatSettled (Resolved (Some t)) wr" "t \<noteq> []" by blast
    have c: "messageCount (step w e) = Num (m + 1)"
      using True b(4) step_count [OF assms(1), of e] by (auto simp del: step.simps)
    show ?thesis
    proof (cases wr)
      case WriteOk
      then have "localStorage (step w e) = (localStorage w)(quota_key \<mapsto> toString (Num (m + 1)))"
        using True e b(4) step_storage [OF assms(1), of e]
        by (auto simp del: step.simps toString.simps)
      then have "initial_messageCount (localStorage (step w e)) = Num (m + 1)"
        by (simp add: reload_after_write del: toString.simps)
      then show ?thesis using c b by (auto simp: stored_behind_def)
    next
      case (WriteThrows x)
      then have "localStorage (step w e) = localStorage w"
        using e step_storage [OF assms(1), of e] by (auto simp del: step.simps)
      then show ?thesis using c b by (auto simp: stored_behind_def)
    qed
  qed
qed

lemma run_stored_behind:
  "consistent w \<Longrightarrow> stored_behind w s \<Longrightarrow> stored_behind (run w es) s"
proof (induction es arbitrary: w)
  case Nil
  then show ?case by (simp add: run_def)
next
  case (Cons e es)
  have "consistent (step w e)" using Cons.prems(1) by (rule consistent_step)
  moreover have "stored_behind (step w e) s" using Cons.prems by (rule step_stored_behind)
  ultimately show ?case using Cons.IH by (simp add: run_def)
qed

lemma initial_stored_behind:
  "initial_messageCount store = Num s \<Longrightarrow> stored_behind (initial_world l store) s"
  by (simp add: stored_behind_def initial_world_def)

section \<open>The claims\<close>

text \<open>
  Claim C1. \<open>isUrlAuthorized\<close> is true whenever the mode is Owner, also with an empty
  authorized URL. In Restricted mode it is false when the authorized URL is empty, and
  otherwise true exactly when the origin, with all trailing slashes stripped and
  lower-cased, equals the authorized URL normalised the same way, or the lower-cased
  full URL starts with the normalised authorized URL. The right-hand side uses the
  normalisation in the specification's words, \<open>normalized_spec\<close>; the code's is
  \<open>normalize_url\<close>, with the regular-expression replacement.
\<close>

theorem isUrlAuthorized_spec:
  "isUrlAuthorized l a =
     (case mode_of l of
        Owner \<Rightarrow> True
      | Restricted \<Rightarrow>
          a \<noteq> [] \<and>
          (normalized_spec (origin l) = normalized_spec a \<or>
           prefix (normalized_spec a) (toLowerCase (href l))))"
  by (simp add: isUrlAuthorized_def mode_of_def normalize_spec startsWith_prefix Let_def)

theorem isUrlAuthorized_spec_witness:
  "isUrlAuthorized
     \<lparr>hostname = ''app-pre-1.example.com'', origin = ''https://APP.EXAMPLE.COM/'',
      href = ''https://APP.EXAMPLE.COM/''\<rparr> ''https://app.example.com'' \<and>
   isUrlAuthorized preview_location preview_url \<and>
   \<not> isUrlAuthorized preview_location [] \<and>
   \<not> isUrlAuthorized preview_location ''https://other.example.com'' \<and>
   isUrlAuthorized owner_location []"
proof -
  let ?l = "\<lparr>hostname = ''app-pre-1.example.com'', origin = ''https://APP.EXAMPLE.COM/'',
      href = ''https://APP.EXAMPLE.COM/''\<rparr>"
  have s: "mode_of ?l = Restricted"
    "normalized_spec (origin ?l) = normalized_spec ''https://app.example.com''"
    by code_simp+
  have r: "mode_of preview_location = Restricted" by code_simp
  have o: "mode_of owner_location = Owner" by code_simp
  have n: "normalized_spec (origin preview_location) = normalized_spec preview_url" by code_simp
  have u: "preview_url \<noteq> []" by code_simp
  have d: "normalized_spec (origin preview_location) \<noteq> normalized_spec ''https://other.example.com''"
    by code_simp
  have e: "\<not> prefix (normalized_spec ''https://other.example.com'') (toLowerCase (href preview_location))"
    by code_simp
  show ?thesis
    using isUrlAuthorized_spec [of ?l "''https://app.example.com''"]
      isUrlAuthorized_spec [of preview_location preview_url]
      isUrlAuthorized_spec [of preview_location "[]"]
      isUrlAuthorized_spec [of preview_location "''https://other.example.com''"]
      isUrlAuthorized_spec [of owner_location "[]"] s r o n u d e
    by simp
qed

text \<open>
  Claim C2 as stated fails. On the shared deployment with no authorized URL, submitting
  "hello" leaves only the Assistant's not-authorized notice in the transcript. With the
  count at 3 the handler appends only the limit notice and calls no provider, and the
  form itself cannot be submitted, its button being disabled. The user's message is in
  none of these transcripts.
\<close>

theorem user_message_first_counterexample:
  "chatMessages (step (session preview_location [] (Num 0) ''hello'') SubmitChat) =
     [ChatMessage Ai not_authorized_text] \<and>
   chatMessages (handleSendMessage (Resolved (Some ''hi'')) WriteOk
      (session preview_location preview_url (Num 3) ''hello'')) =
     [ChatMessage Ai limit_reached_text] \<and>
   requests (handleSendMessage (Resolved (Some ''hi'')) WriteOk
      (session preview_location preview_url (Num 3) ''hello'')) = [] \<and>
   chatMessages (step (session preview_location preview_url (Num 3) ''hello'') SubmitChat) = []"
proof -
  let ?u = "session preview_location [] (Num 0) ''hello''"
  let ?x = "session preview_location preview_url (Num 3) ''hello''"
  have u: "trim (chatInput ?u) \<noteq> []" "\<not> authorized ?u" "\<not> chat_submit_disabled ?u" by code_simp+
  have x: "trim (chatInput ?x) \<noteq> []" "authorized ?x" "quota_exhausted ?x" "chat_submit_disabled ?x"
    by code_simp+
  have e: "chatMessages ?u = []" "chatMessages ?x = []" "requests ?x = []"
    by (simp_all add: session_def initial_world_def)
  show ?thesis
    using u x e by (simp add: start_unauthorized handleSendMessage_exhausted)
qed

text \<open>
  Claim C2, amended. For a submission that is not blank, the handler checks the
  authorization and then the quota first. An unauthorized submission appends only the
  not-authorized notice, and an exhausted quota appends only the limit notice; both clear
  the input and leave everything else, the count and the provider calls included, as it
  was. Only when both checks pass is the user's message appended, in the same step that
  calls the provider with it, and it stays at its place in the transcript whatever the
  call's outcome.
\<close>

theorem gated_submission:
  assumes "trim (chatInput w) \<noteq> []"
  shows "(\<not> authorized w \<longrightarrow>
            handleSendMessage r wr w =
              w\<lparr>chatMessages := chatMessages w @ [ChatMessage Ai not_authorized_text],
                chatInput := []\<rparr>) \<and>
         (authorized w \<and> quota_exhausted w \<longrightarrow>
            handleSendMessage r wr w =
              w\<lparr>chatMessages := chatMessages w @ [ChatMessage Ai limit_reached_text],
                chatInput := []\<rparr>) \<and>
         (authorized w \<and> \<not> quota_exhausted w \<longrightarrow>
            fst (handleSendMessage_start w) =
              w\<lparr>chatMessages := chatMessages w @ [ChatMessage User (chatInput w)],
                chatInput := [], isChatLoading := True,
                requests := requests w @ [chatInput w]\<rparr> \<and>
            prefix (chatMessages w @ [ChatMessage User (chatInput w)])
              (chatMessages (handleSendMessage r wr w)) \<and>
            requests (handleSendMessage r wr w) = requests w @ [chatInput w])"
proof (intro conjI impI)
  assume "\<not> authorized w"
  then show "handleSendMessage r wr w =
      w\<lparr>chatMessages := chatMessages w @ [ChatMessage Ai not_authorized_text], chatInput := []\<rparr>"
    using assms by (rule handleSendMessage_unauthorized [rotated])
next
  assume "authorized w \<and> quota_exhausted w"
  then show "handleSendMessage r wr w =
      w\<lparr>chatMessages := chatMessages w @ [ChatMessage Ai limit_reached_text], chatInput := []\<rparr>"
    using assms by (simp add: handleSendMessage_exhausted)
next
  assume a: "authorized w \<and> \<not> quota_exhausted w"
  then show "fst (handleSendMessage_start w) =
      w\<lparr>chatMessages := chatMessages w @ [ChatMessage User (chatInput w)],
        chatInput := [], isChatLoading := True, requests := requests w @ [chatInput w]\<rparr>"
    using assms by (simp add: start_dispatch)
  let ?p = "\<lparr>userMessage = chatInput w, closure_messageCount = messageCount w\<rparr>"
  let ?w1 = "w\<lparr>chatMessages := chatMessages w @ [ChatMessage User (chatInput w)],
        chatInput := [], isChatLoading := True, requests := requests w @ [chatInput w]\<rparr>"
  have h: "handleSendMessage r wr w = handleSendMessage_settle ?p r wr ?w1"
    using assms a by (simp add: handleSendMessage_dispatch)
  show "prefix (chatMessages w @ [ChatMessage User (chatInput w)])
      (chatMessages (handleSendMessage r wr w))"
    using settle_messages_prefix [of ?w1 ?p r wr] h by simp
  show "requests (handleSendMessage r wr w) = requests w @ [chatInput w]"
    using h by (simp add: settle_frame)
qed

theorem gated_submission_witness:
  "handleSendMessage (Resolved (Some ''hi'')) WriteOk (session preview_location [] (Num 0) ''hello'') =
     (session preview_location [] (Num 0) ''hello'')
       \<lparr>chatMessages := [ChatMessage Ai not_authorized_text], chatInput := []\<rparr> \<and>
   handleSendMessage (Resolved (Some ''hi'')) WriteOk
       (session preview_location preview_url (Num 3) ''hello'') =
     (session preview_location preview_url (Num 3) ''hello'')
       \<lparr>chatMessages := [ChatMessage Ai limit_reached_text], chatInput := []\<rparr> \<and>
   prefix [ChatMessage User ''hello'']
     (chatMessages (handleSendMessage (Rejected None) WriteOk
        (session preview_location preview_url (Num 2) ''hello''))) \<and>
   requests (handleSendMessage (Rejected None) WriteOk
        (session preview_location preview_url (Num 2) ''hello'')) = [''hello'']"
proof -
  let ?u = "session preview_location [] (Num 0) ''hello''"
  let ?x = "session preview_location preview_url (Num 3) ''hello''"
  let ?y = "session preview_location preview_url (Num 2) ''hello''"
  have u: "trim (chatInput ?u) \<noteq> []" "\<not> authorized ?u" by code_simp+
  have x: "trim (chatInput ?x) \<noteq> []" "authorized ?x" "quota_exhausted ?x" by code_simp+
  have y: "trim (chatInput ?y) \<noteq> []" "authorized ?y" "\<not> quota_exhausted ?y" by code_simp+
  have e: "chatMessages ?u = []" "chatMessages ?x = []" "chatMessages ?y = []" "requests ?y = []"
    "chatInput ?y = ''hello''"
    by (simp_all add: session_def initial_world_def)
  show ?thesis
    using gated_submission [OF u(1), of "Resolved (Some ''hi'')" WriteOk]
      gated_submission [OF x(1), of "Resolved (Some ''hi'')" WriteOk]
      gated_submission [OF y(1), of "Rejected None" WriteOk] u x y e
    by simp
qed

text \<open>
  Claim C3 as stated fails: a successful one-shot story assistance on the shared
  deployment leaves the count at 0 and writes nothing to the store.
\<close>

theorem assistance_spares_quota_counterexample:
  "shared ((session preview_location preview_url (Num 0) [])\<lparr>title := ''Dawn''\<rparr>) \<and>
   requests (generateAIAssistance (Resolved (Some ''A fox appears.''))
     ((session preview_location preview_url (Num 0) [])\<lparr>title := ''Dawn''\<rparr>)) =
     [generate_prompt ''Dawn'' []] \<and>
   content (generateAIAssistance (Resolved (Some ''A fox appears.''))
     ((session preview_location preview_url (Num 0) [])\<lparr>title := ''Dawn''\<rparr>)) =
     [CHR 0x0A, CHR 0x0A] @ ''---'' @ [CHR 0x0A] @ ''*AI Suggestion:*'' @ [CHR 0x0A] @ ''A fox appears.'' \<and>
   messageCount (generateAIAssistance (Resolved (Some ''A fox appears.''))
     ((session preview_location preview_url (Num 0) [])\<lparr>title := ''Dawn''\<rparr>)) = Num 0 \<and>
   localStorage (generateAIAssistance (Resolved (Some ''A fox appears.''))
     ((session preview_location preview_url (Num 0) [])\<lparr>title := ''Dawn''\<rparr>)) quota_key = None \<and>
   messageCount (run ((session preview_location preview_url (Num 0) [])\<lparr>title := ''Dawn''\<rparr>)
     [ClickGenerate, GenerateSettled (Resolved (Some ''A fox appears.''))]) = Num 0"
  by code_simp

text \<open>
  Claim C3, amended. On every page whose suspended chat call agrees with it: the count
  never decreases along any sequence of events; a chat call that resolves with a text on
  the shared deployment raises it by exactly 1 (within the integers a double holds
  exactly); every other event leaves it as it is, the one-shot assistance, started or
  settled, among them; on the owner's deployment no event changes the count or the
  store, and a submission calls the provider whatever the count is. The count a reload
  would read from the store never decreases either, and never exceeds the count in
  memory (again within the integers a double holds exactly). Every page reached from
  the start of the page agrees with its suspended call (\<open>consistent_initial\<close>,
  \<open>consistent_run\<close>).
\<close>

theorem count_changes:
  assumes "consistent w"
  shows "(messageCount w = Num n \<longrightarrow> (\<exists>m. messageCount (run w es) = Num m \<and> n \<le> m)) \<and>
         (shared w \<and> isChatLoading w \<and> t \<noteq> [] \<and> messageCount w = Num n \<and>
            safe_integer n \<and> safe_integer (n + 1) \<longrightarrow>
            messageCount (step w (ChatSettled (Resolved (Some t)) wr)) = Num (n + 1)) \<and>
         (\<not> (\<exists>t wr. e = ChatSettled (Resolved (Some t)) wr \<and> t \<noteq> []) \<longrightarrow>
            messageCount (step w e) = messageCount w) \<and>
         messageCount (step w ClickGenerate) = messageCount w \<and>
         messageCount (step w (GenerateSettled r)) = messageCount w \<and>
         (\<not> shared w \<longrightarrow>
            messageCount (run w es) = messageCount w \<and> localStorage (run w es) = localStorage w) \<and>
         (\<not> shared w \<and> \<not> isChatLoading w \<and> trim (chatInput w) \<noteq> [] \<longrightarrow>
            requests (step w SubmitChat) = requests w @ [chatInput w]) \<and>
         (stored_behind w s \<and> messageCount w = Num n \<and> safe_integer s \<and> safe_integer (n + 1) \<longrightarrow>
            stored_behind (run w es) s)"
proof (intro conjI impI)
  assume "messageCount w = Num n"
  then show "\<exists>m. messageCount (run w es) = Num m \<and> n \<le> m"
    using assms by (intro run_count_mono)
next
  assume "shared w \<and> isChatLoading w \<and> t \<noteq> [] \<and> messageCount w = Num n \<and>
    safe_integer n \<and> safe_integer (n + 1)"
  then show "messageCount (step w (ChatSettled (Resolved (Some t)) wr)) = Num (n + 1)"
    using assms by (intro step_count_incremented) simp_all
next
  assume "\<not> (\<exists>t wr. e = ChatSettled (Resolved (Some t)) wr \<and> t \<noteq> [])"
  then show "messageCount (step w e) = messageCount w"
    using assms by (intro step_count_unchanged)
next
  show "messageCount (step w ClickGenerate) = messageCount w"
    using assms by (intro step_count_unchanged) simp_all
  show "messageCount (step w (GenerateSettled r)) = messageCount w"
    using assms by (intro step_count_unchanged) simp_all
next
  assume o: "\<not> shared w"
  show "messageCount (run w es) = messageCount w" using run_owner_frame [OF o] by simp
  show "localStorage (run w es) = localStorage w" using run_owner_frame [OF o] by simp
next
  assume "\<not> shared w \<and> \<not> isChatLoading w \<and> trim (chatInput w) \<noteq> []"
  then show "requests (step w SubmitChat) = requests w @ [chatInput w]"
    by (intro owner_submit) simp_all
next
  assume "stored_behind w s \<and> messageCount w = Num n \<and> safe_integer s \<and> safe_integer (n + 1)"
  then show "stored_behind (run w es) s"
    using assms by (intro run_stored_behind) simp_all
qed

theorem count_changes_witness:
  "(\<exists>m. messageCount (run (run (session preview_location preview_url (Num 1) ''hello'') [SubmitChat])
       [ChatSettled (Resolved (Some ''hi'')) WriteOk, ClickGenerate]) = Num m \<and> 1 \<le> m) \<and>
   messageCount (step (run (session preview_location preview_url (Num 1) ''hello'') [SubmitChat])
     (ChatSettled (Resolved (Some ''hi'')) (WriteThrows None))) = Num 2 \<and>
   messageCount (step (run (session preview_location preview_url (Num 1) ''hello'') [SubmitChat])
     (ChatSettled (Rejected None) WriteOk)) = Num 1 \<and>
   messageCount (step (run (session preview_location preview_url (Num 1) ''hello'') [SubmitChat])
     (GenerateSettled (Resolved (Some ''idea'')))) = Num 1 \<and>
   messageCount (run (session owner_location [] (Num 7) ''hello'')
     (chat_turn ''hello'' (Resolved (Some ''hi'')) WriteOk)) = Num 7 \<and>
   requests (step (session owner_location [] (Num 7) ''hello'') SubmitChat) = [''hello''] \<and>
   stored_behind (run (run (session preview_location preview_url (Num 1) ''hello'') [SubmitChat])
       [ChatSettled (Resolved (Some ''hi'')) WriteOk, ClickGenerate]) 0"
proof -
  let ?s = "run (session preview_location preview_url (Num 1) ''hello'') [SubmitChat]"
  have b: "initial_messageCount (localStorage ?s) = Num 0" by code_simp
  let ?o = "session owner_location [] (Num 7) ''hello''"
  have s: "consistent ?s" "shared ?s" "isChatLoading ?s" "messageCount ?s = Num 1"
    "safe_integer 1" "safe_integer (1 + 1)"
    by code_simp+
  have o: "consistent ?o" "\<not> shared ?o" "\<not> isChatLoading ?o" "trim (chatInput ?o) \<noteq> []"
    "messageCount ?o = Num 7" "requests ?o = []" "chatInput ?o = ''hello''"
    by code_simp+
  have t: "''hi'' \<noteq> []" by simp
  have sb: "stored_behind ?s 0" "safe_integer 0" using b s(4) by (simp_all add: stored_behind_def safe_integer_def)
  show ?thesis
    using count_changes [OF s(1), of 1 "[ChatSettled (Resolved (Some ''hi'')) WriteOk, ClickGenerate]"
        "''hi''" "WriteThrows None" "ChatSettled (Rejected None) WriteOk" "Resolved (Some ''idea'')" 0]
      count_changes [OF o(1), of 7 "chat_turn ''hello'' (Resolved (Some ''hi'')) WriteOk"
        "''hi''" WriteOk SubmitChat "Rejected None" 0]
      s o t sb
    by simp
qed




text \<open>
  Claim C5. The count is read from the store when the page starts: 0 when the entry is
  absent or empty, the number when it is one. An entry that \<open>parseInt\<close> cannot read,
  such as \<open>abc\<close>, gives \<open>NaN\<close> and not 0; with it no remaining number is shown, an
  answered turn stores \<open>NaN\<close> again, and the quota is not exhausted after any sequence
  of events.
\<close>

theorem unparsable_count_is_NaN:
  "initial_messageCount [quota_key \<mapsto> ''abc''] = NaN \<and>
   initial_messageCount Map.empty = Num 0 \<and>
   initial_messageCount [quota_key \<mapsto> ''''] = Num 0 \<and>
   initial_messageCount [quota_key \<mapsto> ''2''] = Num 2 \<and>
   \<not> quota_exhausted (initial_world preview_location [quota_key \<mapsto> ''abc'']) \<and>
   remaining_shown (initial_world preview_location [quota_key \<mapsto> ''abc'']) = None \<and>
   messageCount (run (initial_world preview_location [quota_key \<mapsto> ''abc''])
      (SettingsFetched (Some preview_url) # chat_turn ''hi'' (Resolved (Some ''yes'')) WriteOk)) = NaN \<and>
   localStorage (run (initial_world preview_location [quota_key \<mapsto> ''abc''])
      (SettingsFetched (Some preview_url) # chat_turn ''hi'' (Resolved (Some ''yes'')) WriteOk))
      quota_key = Some ''NaN'' \<and>
   (\<forall>es. \<not> quota_exhausted (run (initial_world preview_location [quota_key \<mapsto> ''abc'']) es))"
proof -
  let ?w = "initial_world preview_location [quota_key \<mapsto> ''abc'']"
  have n: "messageCount ?w = NaN" by code_simp
  have "\<not> quota_exhausted (run ?w es)" for es
    using run_count_NaN [OF consistent_initial n, of es]
    by (simp add: quota_exhausted_def js_ge_limit)
  moreover have
    "initial_messageCount [quota_key \<mapsto> ''abc''] = NaN \<and>
     initial_messageCount Map.empty = Num 0 \<and>
     initial_messageCount [quota_key \<mapsto> ''''] = Num 0 \<and>
     initial_messageCount [quota_key \<mapsto> ''2''] = Num 2 \<and>
     \<not> quota_exhausted ?w \<and>
     remaining_shown ?w = None \<and>
     messageCount (run ?w
        (SettingsFetched (Some preview_url) # chat_turn ''hi'' (Resolved (Some ''yes'')) WriteOk)) = NaN \<and>
     localStorage (run ?w
        (SettingsFetched (Some preview_url) # chat_turn ''hi'' (Resolved (Some ''yes'')) WriteOk))
        quota_key = Some ''NaN''"
    by code_simp
  ultimately show ?thesis by blast
qed

text \<open>
  Claim C6. While \<open>isChatLoading\<close> holds, the submit button is disabled and a submission
  changes nothing: no message is appended and no provider call is made. Along every
  sequence of events from the start of the page at most one chat call is suspended, and
  one is exactly while \<open>isChatLoading\<close> holds.
\<close>

theorem submit_while_sending_ignored:
  assumes "isChatLoading w"
  shows "step w SubmitChat = w \<and>
         chatMessages (step w SubmitChat) = chatMessages w \<and>
         requests (step w SubmitChat) = requests w \<and>
         length (chatPending (run (initial_world l store) es)) \<le> 1 \<and>
         isChatLoading (run (initial_world l store) es) =
           (chatPending (run (initial_world l store) es) \<noteq> [])"
proof -
  have "consistent (run (initial_world l store) es)"
    by (rule consistent_run) (rule consistent_initial)
  then show ?thesis using assms by (simp add: chat_submit_disabled_def consistent_def)
qed

theorem submit_while_sending_ignored_witness:
  "isChatLoading (run (session owner_location [] (Num 0) ''hello'') [SubmitChat, ChangeChatInput ''again'']) \<and>
   run (session owner_location [] (Num 0) ''hello'') [SubmitChat, ChangeChatInput ''again'', SubmitChat] =
     run (session owner_location [] (Num 0) ''hello'') [SubmitChat, ChangeChatInput ''again''] \<and>
   requests (run (session owner_location [] (Num 0) ''hello'')
     [SubmitChat, ChangeChatInput ''again'', SubmitChat]) = [''hello'']"
proof -
  let ?w = "run (session owner_location [] (Num 0) ''hello'') [SubmitChat, ChangeChatInput ''again'']"
  have l: "isChatLoading ?w" by code_simp
  have r: "requests ?w = [''hello'']" by code_simp
  have a: "run (session owner_location [] (Num 0) ''hello'') [SubmitChat, ChangeChatInput ''again'', SubmitChat] =
      step ?w SubmitChat"
    by (simp add: run_def)
  show ?thesis
    using submit_while_sending_ignored [OF l] l r a by simp
qed

text \<open>
  Claim C7 as stated fails: when the call resolves with no text or an empty one, the
  transcript ends with the user's message; no Assistant message follows it.
\<close>

theorem empty_response_counterexample:
  "chatMessages (handleSendMessage (Resolved None) WriteOk
      (session preview_location preview_url (Num 0) ''hello'')) = [ChatMessage User ''hello''] \<and>
   chatMessages (handleSendMessage (Resolved (Some [])) WriteOk
      (session preview_location preview_url (Num 0) ''hello'')) = [ChatMessage User ''hello''] \<and>
   chatMessages (run (session owner_location [] (Num 0) ''hello'')
      [SubmitChat, ChatSettled (Resolved None) WriteOk]) = [ChatMessage User ''hello'']"
  by code_simp

text \<open>
  Claim C7, amended. When the provider call resolves with a missing or empty text, no
  message is appended for it: the transcript holds the user's message as its last, the
  session is idle again, and the count, the store and the error log are unchanged.
\<close>

theorem empty_response_turn:
  assumes "t = None \<or> t = Some []"
    and "trim (chatInput w) \<noteq> []" "authorized w" "\<not> quota_exhausted w"
  shows "handleSendMessage (Resolved t) wr w =
           w\<lparr>chatMessages := chatMessages w @ [ChatMessage User (chatInput w)],
             chatInput := [], isChatLoading := False,
             requests := requests w @ [chatInput w]\<rparr> \<and>
         handleSendMessage_settle p (Resolved t) wr v = v\<lparr>isChatLoading := False\<rparr>"
  using assms by (simp add: handleSendMessage_dispatch settle_empty)

theorem empty_response_turn_witness:
  "handleSendMessage (Resolved None) WriteOk (session preview_location preview_url (Num 0) ''hello'') =
     (session preview_location preview_url (Num 0) ''hello'')
       \<lparr>chatMessages := [ChatMessage User ''hello''], chatInput := [], isChatLoading := False,
        requests := [''hello'']\<rparr> \<and>
   messageCount (handleSendMessage (Resolved None) WriteOk
     (session preview_location preview_url (Num 0) ''hello'')) = Num 0"
proof -
  let ?w = "session preview_location preview_url (Num 0) ''hello''"
  have a: "trim (chatInput ?w) \<noteq> []" "authorized ?w" "\<not> quota_exhausted ?w" by code_simp+
  have e: "chatMessages ?w = []" "requests ?w = []" "chatInput ?w = ''hello''" "messageCount ?w = Num 0"
    by (simp_all add: session_def initial_world_def)
  have t: "(None :: string option) = None \<or> None = Some []" by simp
  show ?thesis
    using empty_response_turn [OF t a, of WriteOk] e by simp
qed

text \<open>
  Claim C8. When the provider call fails with an error that carries a detail string, an
  Assistant message embedding the detail is appended after the user's message, the count
  and the stored count are unchanged, and the session is idle again. The handler is a
  total function: the failure is a value it turns into a message. The last three
  conjuncts say the same of the suspended call alone, for every page it resumes in and
  every error, with or without a message.
\<close>

theorem provider_error_turn:
  assumes "trim (chatInput w) \<noteq> []" "authorized w" "\<not> quota_exhausted w"
  shows "chatMessages (handleSendMessage (Rejected (Some detail)) wr w) =
           chatMessages w @
             [ChatMessage User (chatInput w),
              ChatMessage Ai (''Sorry, I'm having trouble connecting: '' @ error_message (Some detail) @
                ''. Please try again.'')] \<and>
         msg_role (last (chatMessages (handleSendMessage (Rejected (Some detail)) wr w))) = Ai \<and>
         sublist detail (msg_text (last (chatMessages (handleSendMessage (Rejected (Some detail)) wr w)))) \<and>
         messageCount (handleSendMessage (Rejected (Some detail)) wr w) = messageCount w \<and>
         localStorage (handleSendMessage (Rejected (Some detail)) wr w) = localStorage w \<and>
         \<not> isChatLoading (handleSendMessage (Rejected (Some detail)) wr w) \<and>
         messageCount (handleSendMessage_settle p (Rejected m) wr v) = messageCount v \<and>
         localStorage (handleSendMessage_settle p (Rejected m) wr v) = localStorage v \<and>
         \<not> isChatLoading (handleSendMessage_settle p (Rejected m) wr v)"
  using assms error_message_embedded [of detail]
  by (simp add: handleSendMessage_dispatch settle_rejected)

theorem provider_error_turn_witness:
  "chatMessages (handleSendMessage (Rejected (Some ''timeout'')) WriteOk
      (session preview_location preview_url (Num 1) ''hello'')) =
     [ChatMessage User ''hello'',
      ChatMessage Ai ''Sorry, I'm having trouble connecting: timeout. Please try again.''] \<and>
   messageCount (handleSendMessage (Rejected (Some ''timeout'')) WriteOk
      (session preview_location preview_url (Num 1) ''hello'')) = Num 1 \<and>
   \<not> isChatLoading (handleSendMessage (Rejected (Some ''timeout'')) WriteOk
      (session preview_location preview_url (Num 1) ''hello''))"
proof -
  let ?w = "session preview_location preview_url (Num 1) ''hello''"
  have a: "trim (chatInput ?w) \<noteq> []" by code_simp
  have b: "authorized ?w" by code_simp
  have c: "\<not> quota_exhausted ?w" by code_simp
  have d: "chatMessages ?w = []" "chatInput ?w = ''hello''" "messageCount ?w = Num 1"
    by (simp_all add: session_def initial_world_def)
  have e: "error_message (Some ''timeout'') = ''timeout''" by (simp add: error_message_def)
  show ?thesis
    using provider_error_turn [OF a b c, of "''timeout''" WriteOk] d e by simp
qed

text \<open>
  Claim C9. When the write that persists the raised count throws, the answer is already
  in the transcript and the count in memory is raised, the store is left as it was and
  the session is idle again. The failure is logged, but it is not logged only: the call
  of \<open>localStorage.setItem\<close> stands inside the \<open>try\<close> whose \<open>catch\<close> was written for the
  provider's failures, so after the answer the user is told of trouble connecting, with
  the write's error in the message. Evaluated on the shared deployment with the count
  at 0, the text "hello", an answer and a write that throws.
\<close>

theorem storage_failure_surfaces:
  "chatMessages (handleSendMessage (Resolved (Some ''Once upon a time''))
      (WriteThrows (Some ''The quota has been exceeded.''))
      (session preview_location preview_url (Num 0) ''hello'')) =
     [ChatMessage User ''hello'', ChatMessage Ai ''Once upon a time'',
      ChatMessage Ai
        ''Sorry, I'm having trouble connecting: The quota has been exceeded.. Please try again.''] \<and>
   messageCount (handleSendMessage (Resolved (Some ''Once upon a time''))
      (WriteThrows (Some ''The quota has been exceeded.''))
      (session preview_location preview_url (Num 0) ''hello'')) = Num 1 \<and>
   localStorage (handleSendMessage (Resolved (Some ''Once upon a time''))
      (WriteThrows (Some ''The quota has been exceeded.''))
      (session preview_location preview_url (Num 0) ''hello'')) quota_key = None \<and>
   console_error (handleSendMessage (Resolved (Some ''Once upon a time''))
      (WriteThrows (Some ''The quota has been exceeded.''))
      (session preview_location preview_url (Num 0) ''hello'')) = [''Chat failed''] \<and>
   \<not> isChatLoading (handleSendMessage (Resolved (Some ''Once upon a time''))
      (WriteThrows (Some ''The quota has been exceeded.''))
      (session preview_location preview_url (Num 0) ''hello'')) \<and>
   chatMessages (handleSendMessage (Resolved (Some ''Once upon a time'')) WriteOk
      (session preview_location preview_url (Num 0) ''hello'')) =
     [ChatMessage User ''hello'', ChatMessage Ai ''Once upon a time'']"
  by code_simp

text \<open>
  Claim C10. The one-shot assistance leaves the count and the store unchanged, for every
  outcome and on both deployments, as a whole call and as the two events of the page. It
  calls the provider exactly when a title or a content is present and the URL is
  authorized, and its result does not depend on the count or the store: running it on a
  page with another count and store gives the same page with that count and store.
\<close>

theorem generate_ignores_quota:
  "messageCount (generateAIAssistance r w) = messageCount w \<and>
   localStorage (generateAIAssistance r w) = localStorage w \<and>
   messageCount (step w ClickGenerate) = messageCount w \<and>
   localStorage (step w ClickGenerate) = localStorage w \<and>
   messageCount (step w (GenerateSettled r)) = messageCount w \<and>
   localStorage (step w (GenerateSettled r)) = localStorage w \<and>
   snd (generateAIAssistance_start w) = (\<not> (title w = [] \<and> content w = []) \<and> authorized w) \<and>
   generateAIAssistance r (w\<lparr>messageCount := c, localStorage := s\<rparr>) =
     (generateAIAssistance r w)\<lparr>messageCount := c, localStorage := s\<rparr>"
proof -
  have a: "authorized (w\<lparr>messageCount := c, localStorage := s\<rparr>) = authorized w"
    by (simp add: authorized_def)
  show ?thesis
    by (simp add: generateAIAssistance_def generateAIAssistance_start_def
        generateAIAssistance_settle_def a generate_disabled_def
        split: provider_result.split option.split nat.split)
qed

theorem generate_ignores_quota_witness:
  "quota_exhausted ((session preview_location preview_url (Num 3) [])\<lparr>title := ''Dawn''\<rparr>) \<and>
   snd (generateAIAssistance_start ((session preview_location preview_url (Num 3) [])\<lparr>title := ''Dawn''\<rparr>)) \<and>
   messageCount (generateAIAssistance (Resolved (Some ''A fox appears.''))
     ((session preview_location preview_url (Num 3) [])\<lparr>title := ''Dawn''\<rparr>)) = Num 3 \<and>
   localStorage (generateAIAssistance (Resolved (Some ''A fox appears.''))
     ((session preview_location preview_url (Num 3) [])\<lparr>title := ''Dawn''\<rparr>)) quota_key = None"
proof -
  let ?w = "(session preview_location preview_url (Num 3) [])\<lparr>title := ''Dawn''\<rparr>"
  have w: "quota_exhausted ?w" "authorized ?w" "title ?w \<noteq> []" "messageCount ?w = Num 3"
    "localStorage ?w quota_key = None"
    by code_simp+
  show ?thesis
    using generate_ignores_quota [of "Resolved (Some ''A fox appears.'')" ?w] w by simp
qed

end
